theory Spec2Isabelle
  imports Complex_Main "HOL-Library.Sublist"
begin

section \<open>The DEM harvester \<^verbatim>\<open>inst/python/getdata_dem.py\<close>\<close>

text \<open>
  The module talks to three things outside itself: a Web Coverage Service (through
  \<^verbatim>\<open>owslib\<close>), the file system (through \<^verbatim>\<open>os\<close> and \<^verbatim>\<open>open\<close>) and the raster
  engine \<^verbatim>\<open>gdal\<close>. Each of them is a field of the record \<open>env\<close>: a function that
  either returns a value or raises, written as a sum with \<open>Inl\<close> for the exception.
  The state the functions change (files, directories, the coverage requests sent so
  far) is the record \<open>world\<close>, passed in and returned. Output written by \<^verbatim>\<open>print\<close>
  is not part of the model.
\<close>

subsection \<open>Values\<close>

datatype py_error =
  OSError | ServiceError | KeyError | AttributeError | OverflowError | KeyboardInterrupt

text \<open>
  A Python number is an \<^verbatim>\<open>int\<close> or a \<^verbatim>\<open>float\<close>. The floats are a type parameter:
  the only arithmetic of the module is the true division \<^verbatim>\<open>resolution / 3600\<close>, which
  is the field \<open>truediv\<close> of the environment.
\<close>

datatype 'f pynum = PyInt int | PyFloat 'f

text \<open>What \<^verbatim>\<open>getwcs_dem\<close> returns: the boolean \<^verbatim>\<open>False\<close> or the output file name.\<close>

datatype retval = PyFalse | Path string

record date =
  year :: nat
  month :: nat
  day :: nat

text \<open>The dictionary built by \<^verbatim>\<open>get_metadict\<close>, one field per key.\<close>

record metadict =
  demdict_title :: string
  demdict_description :: string
  demdict_crs :: string
  demdict_bbox :: "rat list"
  resolution_arcsec :: int

text \<open>
  A coverage of the service as \<^verbatim>\<open>owslib\<close> presents it; an attribute the capabilities
  document does not give is \<^verbatim>\<open>None\<close>. \<open>contents\<close> is the dictionary
  \<^verbatim>\<open>wcs.contents\<close> in the order of its keys.
\<close>

record 'b layer =
  title :: "string option"
  abstract :: "string option"
  boundingBoxWGS84 :: "'b option"

record 'b wcs =
  contents :: "(string \<times> 'b layer) list"

text \<open>The keyword arguments of one \<^verbatim>\<open>wcs.getCoverage\<close> call.\<close>

record ('f, 'b) request =
  req_identifier :: string
  bbox :: 'b
  format :: string
  crs :: string
  resx :: 'f
  resy :: 'f
  Styles :: string

record ('f, 'b) world =
  files :: "string \<rightharpoonup> string"
  dirs :: "string list"
  requests :: "('f, 'b) request list"

text \<open>
  The libraries.
  \<^item> \<open>makedirs_new w name\<close>: \<^verbatim>\<open>os.makedirs\<close> on a path that is not yet a directory:
    the exception, or the ancestors created on the way.
  \<^item> \<open>WebCoverageService url\<close>: the constructor with \<^verbatim>\<open>version='1.0.0', timeout=300\<close>
    (it fetches the capabilities document).
  \<^item> \<open>utcnow\<close>: the day \<^verbatim>\<open>datetime.now(timezone.utc)\<close> falls on.
  \<^item> \<open>truediv x n\<close>: Python's \<^verbatim>\<open>x / n\<close>, a float or an exception.
  \<^item> \<open>getCoverage url req\<close>: the exception of the call, or the response object, which
    is what its \<^verbatim>\<open>read()\<close> gives: an exception or the bytes.
  \<^item> \<open>open_fault w name\<close>: the exception of \<^verbatim>\<open>open(name, 'wb')\<close>, if it raises.
  \<^item> \<open>write_fault w name bs\<close>: the exception of writing and closing, if any, with
    the number of bytes that reached the file.
  \<^item> \<open>DEMProcessing w dest src alg\<close>: the exception of \<^verbatim>\<open>gdal.DEMProcessing\<close>, or the
    raster it writes to \<open>dest\<close>.
\<close>

record ('f, 'b) env =
  makedirs_new :: "('f, 'b) world \<Rightarrow> string \<Rightarrow> py_error + string list"
  WebCoverageService :: "string \<Rightarrow> py_error + 'b wcs"
  utcnow :: date
  truediv :: "'f pynum \<Rightarrow> int \<Rightarrow> py_error + 'f"
  getCoverage :: "string \<Rightarrow> ('f, 'b) request \<Rightarrow> py_error + (py_error + string)"
  open_fault :: "('f, 'b) world \<Rightarrow> string \<Rightarrow> py_error option"
  write_fault :: "('f, 'b) world \<Rightarrow> string \<Rightarrow> string \<Rightarrow> (py_error \<times> nat) option"
  DEMProcessing :: "('f, 'b) world \<Rightarrow> string \<Rightarrow> string \<Rightarrow> string \<Rightarrow> py_error + string"

subsection \<open>Library functions the module calls\<close>

text \<open>
  \<^verbatim>\<open>str.replace(old, new)\<close>: every occurrence of \<open>old\<close>, leftmost first and not
  overlapping, becomes \<open>new\<close>; an empty \<open>old\<close> matches between any two characters.
\<close>

function str_replace_loop :: "string \<Rightarrow> string \<Rightarrow> string \<Rightarrow> string" where
  "str_replace_loop old new [] = []"
| "str_replace_loop old new (c # cs) =
     (if old \<noteq> [] \<and> take (length old) (c # cs) = old
      then new @ str_replace_loop old new (drop (length old) (c # cs))
      else c # str_replace_loop old new cs)"
  by pat_completeness auto
termination
  by (relation "measure (\<lambda>(old, new, s). length s)") auto

definition str_replace :: "string \<Rightarrow> string \<Rightarrow> string \<Rightarrow> string" where
  "str_replace old new s =
     (if old = [] then new @ concat (map (\<lambda>c. c # new) s) else str_replace_loop old new s)"

text \<open>
  \<^verbatim>\<open>strftime('%Y-%m-%d')\<close>: the year on four digits, month and day on two, padded with
  zeros. \<open>digits k n\<close> is the decimal numeral of \<open>n\<close> on \<open>k\<close> digits; a
  \<^verbatim>\<open>datetime\<close> has a year from 1 to 9999.
\<close>

definition digit_char :: "nat \<Rightarrow> char" where
  "digit_char n = char_of (48 + n mod 10)"

fun digits :: "nat \<Rightarrow> nat \<Rightarrow> string" where
  "digits 0 n = []"
| "digits (Suc k) n = digits k (n div 10) @ [digit_char n]"

definition strftime_Ymd :: "date \<Rightarrow> string" where
  "strftime_Ymd d =
     digits 4 (year d) @ ''-'' @ digits 2 (month d) @ ''-'' @ digits 2 (day d)"

text \<open>
  \<^verbatim>\<open>os.path\<close> on a POSIX system (\<^verbatim>\<open>posixpath\<close>), with the separator \<^verbatim>\<open>/\<close>:
  \<^verbatim>\<open>join\<close> of two components, \<^verbatim>\<open>basename\<close>, \<^verbatim>\<open>dirname\<close> and \<^verbatim>\<open>exists\<close>.
\<close>

definition os_path_join :: "string \<Rightarrow> string \<Rightarrow> string" where
  "os_path_join a b =
     (if b \<noteq> [] \<and> hd b = CHR ''/'' then b
      else if a = [] \<or> last a = CHR ''/'' then a @ b
      else a @ ''/'' @ b)"

definition os_path_basename :: "string \<Rightarrow> string" where
  "os_path_basename p = rev (takeWhile (\<lambda>c. c \<noteq> CHR ''/'') (rev p))"

definition rstrip_sep :: "string \<Rightarrow> string" where
  "rstrip_sep s = rev (dropWhile (\<lambda>c. c = CHR ''/'') (rev s))"

definition os_path_dirname :: "string \<Rightarrow> string" where
  "os_path_dirname p =
     (let head = rev (dropWhile (\<lambda>c. c \<noteq> CHR ''/'') (rev p))
      in if head \<noteq> [] \<and> head \<noteq> replicate (length head) (CHR ''/'')
         then rstrip_sep head else head)"

definition os_path_exists :: "('f, 'b) world \<Rightarrow> string \<Rightarrow> bool" where
  "os_path_exists w p \<longleftrightarrow> files w p \<noteq> None \<or> p \<in> set (dirs w)"

text \<open>
  \<^verbatim>\<open>os.makedirs(name, exist_ok=True)\<close>: nothing to do when \<open>name\<close> is a directory;
  otherwise it raises or leaves \<open>name\<close> and its new ancestors as directories. No
  regular file is created, removed or changed.
\<close>

definition os_makedirs ::
  "('f, 'b) env \<Rightarrow> string \<Rightarrow> ('f, 'b) world \<Rightarrow> py_error + ('f, 'b) world" where
  "os_makedirs env name w =
     (if name \<in> set (dirs w) then Inr w
      else case makedirs_new env w name of
             Inl e \<Rightarrow> Inl e
           | Inr created \<Rightarrow> Inr (w\<lparr>dirs := name # created @ dirs w\<rparr>))"

text \<open>\<^verbatim>\<open>wcs[name]\<close>: the entry of \<^verbatim>\<open>wcs.contents\<close>, or \<^verbatim>\<open>KeyError\<close>.\<close>

definition wcs_getitem :: "'b wcs \<Rightarrow> string \<Rightarrow> py_error + 'b layer" where
  "wcs_getitem w name =
     (case map_of (contents w) name of None \<Rightarrow> Inl KeyError | Some lay \<Rightarrow> Inr lay)"

text \<open>The coverage a key of \<^verbatim>\<open>wcs.contents\<close> stands for.\<close>

definition layer_of :: "'b wcs \<Rightarrow> string \<Rightarrow> 'b layer" where
  "layer_of w k = the (map_of (contents w) k)"

text \<open>
  \<^verbatim>\<open>with open(name, 'wb') as f: f.write(data.read())\<close>: the file is created empty,
  then the response is read, then the bytes are written.
\<close>

definition write_response ::
  "('f, 'b) env \<Rightarrow> string \<Rightarrow> py_error + string \<Rightarrow> ('f, 'b) world
     \<Rightarrow> (py_error + unit) \<times> ('f, 'b) world" where
  "write_response env name data w =
     (case open_fault env w name of
        Some e \<Rightarrow> (Inl e, w)
      | None \<Rightarrow>
          (let w1 = w\<lparr>files := (files w)(name \<mapsto> [])\<rparr>
           in case data of
                Inl e \<Rightarrow> (Inl e, w1)
              | Inr bs \<Rightarrow>
                  (case write_fault env w1 name bs of
                     Some (e, n) \<Rightarrow> (Inl e, w1\<lparr>files := (files w1)(name \<mapsto> take n bs)\<rparr>)
                   | None \<Rightarrow> (Inr (), w1\<lparr>files := (files w1)(name \<mapsto> bs)\<rparr>))))"

subsection \<open>The module\<close>

definition get_metadict :: metadict where
  "get_metadict =
     \<lparr>demdict_title = ''DEM 1 Second Grid'',
      demdict_description = ''Digital Elevation Model (DEM) of Australia derived from STRM with 1 Second Grid - Hydrologically Enforced.'',
      demdict_crs = ''EPSG:4326'',
      demdict_bbox = [11299986111100009 / 10 ^ 14, - (440001388895483 / 10 ^ 13),
                      1539998611116614 / 10 ^ 13, - (10000138888999906 / 10 ^ 15)],
      resolution_arcsec = 1\<rparr>"

text \<open>
  \<^verbatim>\<open>get_capabilities\<close>: the loop over \<^verbatim>\<open>content.keys()\<close> with its three lists; each
  \<^verbatim>\<open>wcs[key]\<close> is a lookup of its own, as in the source.
\<close>

fun capabilities_loop ::
  "'b wcs \<Rightarrow> string list \<Rightarrow> string option list \<times> string option list \<times> 'b option list
     \<Rightarrow> py_error + (string option list \<times> string option list \<times> 'b option list)" where
  "capabilities_loop w [] acc = Inr acc"
| "capabilities_loop w (key # keys) (title_list, description_list, bbox_list) =
     (case wcs_getitem w key of
        Inl e \<Rightarrow> Inl e
      | Inr l1 \<Rightarrow>
          (case wcs_getitem w key of
             Inl e \<Rightarrow> Inl e
           | Inr l2 \<Rightarrow>
               (case wcs_getitem w key of
                  Inl e \<Rightarrow> Inl e
                | Inr l3 \<Rightarrow>
                    capabilities_loop w keys
                      (title_list @ [title l1], description_list @ [abstract l2],
                       bbox_list @ [boundingBoxWGS84 l3]))))"

definition get_capabilities ::
  "('f, 'b) env \<Rightarrow> string
     \<Rightarrow> py_error + (string list \<times> string option list \<times> string option list \<times> 'b option list)" where
  "get_capabilities env url =
     (case WebCoverageService env url of
        Inl e \<Rightarrow> Inl e
      | Inr w \<Rightarrow>
          (let keys = map fst (contents w)
           in case capabilities_loop w keys ([], [], []) of
                Inl e \<Rightarrow> Inl e
              | Inr (title_list, description_list, bbox_list) \<Rightarrow>
                  Inr (keys, title_list, description_list, bbox_list)))"

text \<open>Line 162: the name of the output file, from the layer title and the date.\<close>

definition fname_out :: "string \<Rightarrow> date \<Rightarrow> string" where
  "fname_out layername d =
     str_replace '' '' ''_'' layername @ ''_'' @ strftime_Ymd d @ ''.tif''"

text \<open>
  Lines 167 to 178, the \<^verbatim>\<open>else\<close> branch inside the \<^verbatim>\<open>try\<close> statement: the coverage
  request and the write of its response to \<^verbatim>\<open>outfname\<close>. Both \<^verbatim>\<open>resolution / 3600\<close>
  are evaluated before the call; the request is logged when \<^verbatim>\<open>getCoverage\<close> is
  called.
\<close>

definition getwcs_dem_download ::
  "('f, 'b) env \<Rightarrow> string \<Rightarrow> 'b \<Rightarrow> 'f pynum \<Rightarrow> string \<Rightarrow> string \<Rightarrow> ('f, 'b) world
     \<Rightarrow> (py_error + unit) \<times> ('f, 'b) world" where
  "getwcs_dem_download env outfname bbox' resolution url crs' w =
     (case truediv env resolution 3600 of
        Inl e \<Rightarrow> (Inl e, w)
      | Inr rx \<Rightarrow>
          (case truediv env resolution 3600 of
             Inl e \<Rightarrow> (Inl e, w)
           | Inr ry \<Rightarrow>
               (let req = \<lparr>req_identifier = ''1'', bbox = bbox', format = ''GeoTIFF'',
                           crs = crs', resx = rx, resy = ry, Styles = ''tc''\<rparr>;
                    w1 = w\<lparr>requests := requests w @ [req]\<rparr>
                in case getCoverage env url req of
                     Inl e \<Rightarrow> (Inl e, w1)
                   | Inr data \<Rightarrow> write_response env outfname data w1)))"

text \<open>
  Lines 159 to 178, the body of the \<^verbatim>\<open>try\<close> statement of \<^verbatim>\<open>getwcs_dem\<close>: the
  exception that leaves it, or \<^verbatim>\<open>outfname\<close>. A title that is \<^verbatim>\<open>None\<close> has no
  \<^verbatim>\<open>replace\<close>.
\<close>

definition getwcs_dem_try ::
  "('f, 'b) env \<Rightarrow> string \<Rightarrow> 'b \<Rightarrow> 'f pynum \<Rightarrow> string \<Rightarrow> string \<Rightarrow> ('f, 'b) world
     \<Rightarrow> (py_error + string) \<times> ('f, 'b) world" where
  "getwcs_dem_try env outpath bbox' resolution url crs' w =
     (case WebCoverageService env url of
        Inl e \<Rightarrow> (Inl e, w)
      | Inr wcs \<Rightarrow>
          (case wcs_getitem wcs ''1'' of
             Inl e \<Rightarrow> (Inl e, w)
           | Inr lay \<Rightarrow>
               (case title lay of
                  None \<Rightarrow> (Inl AttributeError, w)
                | Some layername \<Rightarrow>
                    (let outfname = os_path_join outpath (fname_out layername (utcnow env))
                     in if os_path_exists w outfname then (Inr outfname, w)
                        else
                          (case getwcs_dem_download env outfname bbox' resolution url crs' w of
                             (Inl e, w1) \<Rightarrow> (Inl e, w1)
                           | (Inr u, w1) \<Rightarrow> (Inr outfname, w1))))))"

text \<open>
  \<^verbatim>\<open>getwcs_dem(outpath, bbox, resolution, url, crs)\<close>; \<open>None\<close> is Python's
  \<^verbatim>\<open>None\<close> for the resolution. \<open>Inl e\<close> is an exception that leaves the function.
\<close>

definition getwcs_dem ::
  "('f, 'b) env \<Rightarrow> string \<Rightarrow> 'b \<Rightarrow> 'f pynum option \<Rightarrow> string \<Rightarrow> string \<Rightarrow> ('f, 'b) world
     \<Rightarrow> (py_error + retval) \<times> ('f, 'b) world" where
  "getwcs_dem env outpath bbox' resolution url crs' w =
     (let resolution' = (case resolution of
                           None \<Rightarrow> PyInt (resolution_arcsec get_metadict)
                         | Some r \<Rightarrow> r)
      in case os_makedirs env outpath w of
           Inl e \<Rightarrow> (Inl e, w)
         | Inr w0 \<Rightarrow>
             (case getwcs_dem_try env outpath bbox' resolution' url crs' w0 of
                (Inl e, w1) \<Rightarrow> (Inr PyFalse, w1)
              | (Inr outfname, w1) \<Rightarrow> (Inr (Path outfname), w1)))"

text \<open>\<^verbatim>\<open>dem2slope\<close> and \<^verbatim>\<open>dem2aspect\<close>.\<close>

definition dem2slope ::
  "('f, 'b) env \<Rightarrow> string \<Rightarrow> ('f, 'b) world \<Rightarrow> (py_error + string) \<times> ('f, 'b) world" where
  "dem2slope env fname_dem w =
     (let fname = os_path_basename fname_dem;
          path = os_path_dirname fname_dem;
          out = os_path_join path (''Slope_'' @ fname)
      in case DEMProcessing env w out fname_dem ''slope'' of
           Inl e \<Rightarrow> (Inl e, w)
         | Inr raster \<Rightarrow> (Inr out, w\<lparr>files := (files w)(out \<mapsto> raster)\<rparr>))"

definition dem2aspect ::
  "('f, 'b) env \<Rightarrow> string \<Rightarrow> ('f, 'b) world \<Rightarrow> (py_error + string) \<times> ('f, 'b) world" where
  "dem2aspect env fname_dem w =
     (let fname = os_path_basename fname_dem;
          path = os_path_dirname fname_dem;
          out = os_path_join path (''Aspect_'' @ fname)
      in case DEMProcessing env w out fname_dem ''aspect'' of
           Inl e \<Rightarrow> (Inl e, w)
         | Inr raster \<Rightarrow> (Inr out, w\<lparr>files := (files w)(out \<mapsto> raster)\<rparr>))"

subsection \<open>A service, a machine and a day to run the module on\<close>

definition ga_url :: string where
  "ga_url = ''https://services.ga.gov.au/site_9/services/DEM_SRTM_1Second_Hydro_Enforced/MapServer/WCSServer?request=GetCapabilities&service=WCS''"

definition ga_layer :: "rat list layer" where
  "ga_layer = \<lparr>title = Some ''DEM 1 Second Grid'', abstract = Some ''SRTM'',
               boundingBoxWGS84 = Some [113, -44, 154, -10]\<rparr>"

definition py_truediv :: "rat pynum \<Rightarrow> int \<Rightarrow> py_error + rat" where
  "py_truediv x n = (case x of PyInt i \<Rightarrow> Inr (of_int i / of_int n)
                             | PyFloat r \<Rightarrow> Inr (r / of_int n))"

text \<open>Everything works: the service has the one layer of the default source.\<close>

definition good_env :: "(rat, rat list) env" where
  "good_env =
     \<lparr>makedirs_new = (\<lambda>w name. Inr []),
      WebCoverageService = (\<lambda>url. Inr \<lparr>contents = [(''1'', ga_layer)]\<rparr>),
      utcnow = \<lparr>year = 2022, month = 3, day = 7\<rparr>,
      truediv = py_truediv,
      getCoverage = (\<lambda>url req. Inr (Inr ''II*'')),
      open_fault = (\<lambda>w name. None),
      write_fault = (\<lambda>w name bs. None),
      DEMProcessing = (\<lambda>w dest src alg. Inr ''II*'')\<rparr>"

text \<open>A service with two coverages, the second without an abstract.\<close>

definition survey_wcs :: "rat list wcs" where
  "survey_wcs =
     \<lparr>contents =
        [(''7'', \<lparr>title = Some ''Bathymetry'', abstract = Some ''Depth'',
                  boundingBoxWGS84 = Some [100, -50, 160, 0]\<rparr>),
         (''1'', \<lparr>title = Some ''DEM 1 Second Grid'', abstract = None,
                  boundingBoxWGS84 = Some [113, -44, 154, -10]\<rparr>)]\<rparr>"

definition survey_env :: "(rat, rat list) env" where
  "survey_env = good_env\<lparr>WebCoverageService := (\<lambda>url. Inr survey_wcs)\<rparr>"

text \<open>The service answers the capabilities query and fails on the coverage request.\<close>

definition failing_env :: "(rat, rat list) env" where
  "failing_env = good_env\<lparr>getCoverage := (\<lambda>url req. Inl ServiceError)\<rparr>"

text \<open>The output directory cannot be created.\<close>

definition readonly_env :: "(rat, rat list) env" where
  "readonly_env = good_env\<lparr>makedirs_new := (\<lambda>w name. Inl OSError)\<rparr>"

text \<open>The service gives its layer a title that is an absolute path.\<close>

definition rooted_env :: "(rat, rat list) env" where
  "rooted_env =
     good_env\<lparr>WebCoverageService :=
       (\<lambda>url. Inr \<lparr>contents = [(''1'', ga_layer\<lparr>title := Some ''/tmp/x''\<rparr>)]\<rparr>)\<rparr>"

definition empty_world :: "(rat, rat list) world" where
  "empty_world = \<lparr>files = Map.empty, dirs = [], requests = []\<rparr>"

section \<open>Properties\<close>

subsection \<open>Strings and dates\<close>

lemma str_replace_loop_char:
  "str_replace_loop [a] [b] s = map (\<lambda>c. if c = a then b else c) s"
  by (induction s) simp_all

lemma str_replace_char:
  "str_replace [a] [b] s = map (\<lambda>c. if c = a then b else c) s"
  by (simp add: str_replace_def str_replace_loop_char)

lemma length_digits: "length (digits k n) = k"
  by (induction k arbitrary: n) simp_all

lemma fname_out_example:
  "fname_out ''DEM 1 Second Grid'' \<lparr>year = 2022, month = 3, day = 7\<rparr>
     = ''DEM_1_Second_Grid_2022-03-07.tif''"
  by code_simp

subsection \<open>The output file name\<close>

text \<open>
  Claim C3. The file name \<^verbatim>\<open>getwcs_dem\<close> computes is the layer title with every space
  turned into an underscore, then an underscore, then the date as four digits of the
  year, a hyphen, two digits of the month, a hyphen and two digits of the day (ten
  characters), then \<^verbatim>\<open>.tif\<close>. It is a function of the title and the date alone, so
  the same title and date give the same bytes.
\<close>

theorem fname_out_form:
  "fname_out layername d =
     map (\<lambda>c. if c = CHR '' '' then CHR ''_'' else c) layername
       @ ''_'' @ digits 4 (year d) @ ''-'' @ digits 2 (month d) @ ''-'' @ digits 2 (day d)
       @ ''.tif''
   \<and> length (digits 4 (year d) @ ''-'' @ digits 2 (month d) @ ''-'' @ digits 2 (day d)) = 10"
  by (simp add: fname_out_def str_replace_char strftime_Ymd_def length_digits)

subsection \<open>The resolution\<close>

text \<open>
  Claim C5. A call with the resolution \<^verbatim>\<open>None\<close> does what the call with the resolution
  \<^verbatim>\<open>get_metadict()['resolution_arcsec']\<close> does: the same result and the same world
  afterwards, so the same coverage request; and that field is 1.
\<close>

theorem resolution_None_is_native:
  "getwcs_dem env outpath bbox' None url crs' w
     = getwcs_dem env outpath bbox' (Some (PyInt (resolution_arcsec get_metadict))) url crs' w
   \<and> resolution_arcsec get_metadict = 1"
  by (simp add: getwcs_dem_def get_metadict_def)

subsection \<open>The metadata of the source\<close>

text \<open>
  Claim C7, as stated, fails on the bounding box: the dictionary holds the numbers
  112.99986111100009, -44.0001388895483, 153.9998611116614 and -10.000138888999906,
  not 112.9999, -44.0001, 153.9999 and -10.0001.
\<close>

theorem metadict_bbox_not_rounded:
  "demdict_bbox get_metadict
     \<noteq> [1129999 / 10 ^ 4, - (440001 / 10 ^ 4), 1539999 / 10 ^ 4, - (100001 / 10 ^ 4)]"
  by (simp add: get_metadict_def)

text \<open>
  Claim C7, amended. \<^verbatim>\<open>get_metadict\<close> is a constant whose CRS is EPSG:4326, whose
  native resolution is 1 arc-second and whose bounding box is the list of the four
  numbers above; each of them is less than 0.00005 away from the number the claim
  gives, which is its rounding to four decimal places.
\<close>

theorem get_metadict_values:
  "demdict_crs get_metadict = ''EPSG:4326''
   \<and> resolution_arcsec get_metadict = 1
   \<and> demdict_bbox get_metadict =
       [11299986111100009 / 10 ^ 14, - (440001388895483 / 10 ^ 13),
        1539998611116614 / 10 ^ 13, - (10000138888999906 / 10 ^ 15)]
   \<and> \<bar>demdict_bbox get_metadict ! 0 - 1129999 / 10 ^ 4\<bar> < 5 / 10 ^ 5
   \<and> \<bar>demdict_bbox get_metadict ! 1 - (- (440001 / 10 ^ 4))\<bar> < 5 / 10 ^ 5
   \<and> \<bar>demdict_bbox get_metadict ! 2 - 1539999 / 10 ^ 4\<bar> < 5 / 10 ^ 5
   \<and> \<bar>demdict_bbox get_metadict ! 3 - (- (100001 / 10 ^ 4))\<bar> < 5 / 10 ^ 5"
  by (simp add: get_metadict_def)

subsection \<open>The capabilities of the service\<close>

lemma wcs_getitem_key:
  "k \<in> fst ` set (contents w) \<Longrightarrow> \<exists>lay. wcs_getitem w k = Inr lay"
  by (cases "map_of (contents w) k") (auto simp: wcs_getitem_def map_of_eq_None_iff)

lemma wcs_getitem_layer_of:
  "k \<in> fst ` set (contents w) \<Longrightarrow> wcs_getitem w k = Inr (layer_of w k)"
  by (cases "map_of (contents w) k") (auto simp: wcs_getitem_def layer_of_def map_of_eq_None_iff)

lemma capabilities_loop_maps:
  "set ks \<subseteq> fst ` set (contents w) \<Longrightarrow>
   capabilities_loop w ks (ts, ds, bs) =
     Inr (ts @ map (\<lambda>k. title (layer_of w k)) ks,
          ds @ map (\<lambda>k. abstract (layer_of w k)) ks,
          bs @ map (\<lambda>k. boundingBoxWGS84 (layer_of w k)) ks)"
proof (induction ks arbitrary: ts ds bs)
  case Nil
  then show ?case by simp
next
  case (Cons k ks)
  then have k: "wcs_getitem w k = Inr (layer_of w k)"
    by (simp add: wcs_getitem_layer_of)
  from Cons.prems have "set ks \<subseteq> fst ` set (contents w)" by simp
  from Cons.IH [OF this] show ?case by (simp add: k)
qed

lemma get_capabilities_maps:
  assumes "WebCoverageService env url = Inr w"
  shows "get_capabilities env url =
           Inr (map fst (contents w),
                map (\<lambda>k. title (layer_of w k)) (map fst (contents w)),
                map (\<lambda>k. abstract (layer_of w k)) (map fst (contents w)),
                map (\<lambda>k. boundingBoxWGS84 (layer_of w k)) (map fst (contents w)))"
proof -
  have "set (map fst (contents w)) \<subseteq> fst ` set (contents w)" by simp
  from capabilities_loop_maps [OF this, of "[]" "[]" "[]"] assms
  show ?thesis by (simp add: get_capabilities_def)
qed

text \<open>
  Claim C8. When the service answers, \<^verbatim>\<open>get_capabilities\<close> returns the keys of
  \<^verbatim>\<open>wcs.contents\<close> in their order and three lists in that same order: at every
  index \<open>i\<close> the title, the abstract and the bounding box are those of the coverage
  \<^verbatim>\<open>wcs[key]\<close> of the \<open>i\<close>-th key. The loop never raises, since each key it looks
  up is a key of the dictionary.
\<close>

theorem get_capabilities_order:
  assumes "WebCoverageService env url = Inr w"
  shows "\<exists>ts ds bs.
           get_capabilities env url = Inr (map fst (contents w), ts, ds, bs)
           \<and> (\<forall>i < length (contents w).
                 \<exists>lay. wcs_getitem w (map fst (contents w) ! i) = Inr lay
                   \<and> ts ! i = title lay \<and> ds ! i = abstract lay
                   \<and> bs ! i = boundingBoxWGS84 lay)"
proof -
  have "wcs_getitem w (map fst (contents w) ! i) = Inr (layer_of w (map fst (contents w) ! i))"
    if "i < length (contents w)" for i
  proof -
    from that have "map fst (contents w) ! i \<in> fst ` set (contents w)"
      by (metis length_map nth_mem set_map)
    then show ?thesis by (rule wcs_getitem_layer_of)
  qed
  with get_capabilities_maps [OF assms] show ?thesis by simp
qed

text \<open>The claim on a service with two coverages, keys \<^verbatim>\<open>7\<close> and \<^verbatim>\<open>1\<close> in that order.\<close>

theorem get_capabilities_order_witness:
  "WebCoverageService survey_env ga_url = Inr survey_wcs
   \<and> (\<exists>ts ds bs.
          get_capabilities survey_env ga_url = Inr ([''7'', ''1''], ts, ds, bs)
          \<and> ts ! 0 = Some ''Bathymetry'' \<and> ts ! 1 = Some ''DEM 1 Second Grid''
          \<and> ds ! 0 = Some ''Depth'' \<and> ds ! 1 = None
          \<and> bs ! 0 = Some [100, -50, 160, 0] \<and> bs ! 1 = Some [113, -44, 154, -10])"
proof -
  have c: "WebCoverageService survey_env ga_url = Inr survey_wcs"
    by (simp add: survey_env_def good_env_def)
  from get_capabilities_order [OF c] obtain ts ds bs where
    g: "get_capabilities survey_env ga_url = Inr (map fst (contents survey_wcs), ts, ds, bs)"
    and n: "\<forall>i < length (contents survey_wcs).
              \<exists>lay. wcs_getitem survey_wcs (map fst (contents survey_wcs) ! i) = Inr lay
                \<and> ts ! i = title lay \<and> ds ! i = abstract lay
                \<and> bs ! i = boundingBoxWGS84 lay"
    by blast
  have len: "length (contents survey_wcs) = 2"
    by (simp add: survey_wcs_def)
  from n [rule_format, of 0] len
  have "\<exists>lay. wcs_getitem survey_wcs (map fst (contents survey_wcs) ! 0) = Inr lay
                \<and> ts ! 0 = title lay \<and> ds ! 0 = abstract lay
                \<and> bs ! 0 = boundingBoxWGS84 lay"
    by simp
  then have n0: "ts ! 0 = Some ''Bathymetry'' \<and> ds ! 0 = Some ''Depth''
                   \<and> bs ! 0 = Some [100, -50, 160, 0]"
    by (auto simp: survey_wcs_def wcs_getitem_def)
  from n [rule_format, of 1] len
  have "\<exists>lay. wcs_getitem survey_wcs (map fst (contents survey_wcs) ! 1) = Inr lay
                \<and> ts ! 1 = title lay \<and> ds ! 1 = abstract lay
                \<and> bs ! 1 = boundingBoxWGS84 lay"
    by simp
  then have n1: "ts ! 1 = Some ''DEM 1 Second Grid'' \<and> ds ! 1 = None
                   \<and> bs ! 1 = Some [113, -44, 154, -10]"
    by (auto simp: survey_wcs_def wcs_getitem_def)
  from g have "get_capabilities survey_env ga_url = Inr ([''7'', ''1''], ts, ds, bs)"
    by (simp add: survey_wcs_def)
  with c n0 n1 show ?thesis by blast
qed

text \<open>
  Claim C9. When the service answers, the four collections \<^verbatim>\<open>get_capabilities\<close>
  returns have one length, the number of coverages the service reports: one title,
  one description and one bounding box for each key.
\<close>

theorem get_capabilities_lengths:
  assumes "WebCoverageService env url = Inr w"
  shows "\<exists>ks ts ds bs.
           get_capabilities env url = Inr (ks, ts, ds, bs)
           \<and> length ks = length (contents w)
           \<and> length ts = length ks \<and> length ds = length ks \<and> length bs = length ks"
  using get_capabilities_maps [OF assms] by simp

text \<open>The claim on the service with two coverages: every length is 2.\<close>

theorem get_capabilities_lengths_witness:
  "WebCoverageService survey_env ga_url = Inr survey_wcs
   \<and> (\<exists>ks ts ds bs.
          get_capabilities survey_env ga_url = Inr (ks, ts, ds, bs)
          \<and> length ks = 2 \<and> length ts = 2 \<and> length ds = 2 \<and> length bs = 2)"
proof -
  have c: "WebCoverageService survey_env ga_url = Inr survey_wcs"
    by (simp add: survey_env_def good_env_def)
  have "length (contents survey_wcs) = 2"
    by (simp add: survey_wcs_def)
  with get_capabilities_lengths [OF c] c show ?thesis by auto
qed

subsection \<open>The names of the slope and aspect rasters\<close>

lemma basename_of_file:
  assumes "CHR ''/'' \<notin> set f"
  shows "os_path_basename (X @ ''/'' @ f) = f"
proof -
  from assms have "takeWhile (\<lambda>c. c \<noteq> CHR ''/'') (rev f @ CHR ''/'' # rev X) = rev f"
    by (auto simp: takeWhile_tail)
  then show ?thesis by (simp add: os_path_basename_def)
qed

lemma head_of_file:
  assumes "CHR ''/'' \<notin> set f"
  shows "rev (dropWhile (\<lambda>c. c \<noteq> CHR ''/'') (rev (X @ ''/'' @ f))) = X @ ''/''"
proof -
  from assms have "dropWhile (\<lambda>c. c \<noteq> CHR ''/'') (rev f @ CHR ''/'' # rev X) = CHR ''/'' # rev X"
    by (auto simp: dropWhile_append3)
  then show ?thesis by simp
qed

lemma only_sep_iff: "xs = replicate (length xs) c \<longleftrightarrow> set xs \<subseteq> {c}"
  by (induction xs) auto

lemma rstrip_sep_id:
  assumes "X \<noteq> []" and "last X \<noteq> CHR ''/''"
  shows "rstrip_sep (X @ ''/'') = X"
proof -
  from assms have "hd (rev X) \<noteq> CHR ''/''" and "rev X \<noteq> []"
    by (simp_all add: hd_rev)
  then have "dropWhile (\<lambda>c. c = CHR ''/'') (rev X) = rev X"
    by (cases "rev X") simp_all
  then show ?thesis by (simp add: rstrip_sep_def)
qed

lemma dirname_of_file:
  assumes "CHR ''/'' \<notin> set f"
  shows "os_path_dirname (X @ ''/'' @ f) =
           (if set X \<subseteq> {CHR ''/''} then X @ ''/'' else rstrip_sep (X @ ''/''))"
proof -
  have "X @ ''/'' = replicate (length (X @ ''/'')) (CHR ''/'') \<longleftrightarrow> set X \<subseteq> {CHR ''/''}"
    by (subst only_sep_iff) simp
  then show ?thesis
    unfolding os_path_dirname_def head_of_file [OF assms] Let_def by simp
qed

lemma derivative_name:
  assumes f: "CHR ''/'' \<notin> set f"
    and X: "last X \<noteq> CHR ''/'' \<or> set X \<subseteq> {CHR ''/''}"
    and p: "pre \<noteq> []" "hd pre \<noteq> CHR ''/''"
  shows "os_path_join (os_path_dirname (X @ ''/'' @ f)) (pre @ os_path_basename (X @ ''/'' @ f))
           = X @ ''/'' @ pre @ f"
proof -
  have b: "os_path_basename (X @ ''/'' @ f) = f"
    by (rule basename_of_file [OF f])
  show ?thesis
  proof (cases "set X \<subseteq> {CHR ''/''}")
    case True
    then have d: "os_path_dirname (X @ ''/'' @ f) = X @ ''/''"
      by (simp only: dirname_of_file [OF f] if_True)
    show ?thesis
      unfolding d b using p by (simp add: os_path_join_def)
  next
    case False
    with X have n: "X \<noteq> []" and l: "last X \<noteq> CHR ''/''" by auto
    from False have "os_path_dirname (X @ ''/'' @ f) = rstrip_sep (X @ ''/'')"
      by (simp only: dirname_of_file [OF f] if_False)
    with rstrip_sep_id [OF n l] have d: "os_path_dirname (X @ ''/'' @ f) = X"
      by simp
    show ?thesis
      unfolding d b using p n l by (simp add: os_path_join_def)
  qed
qed

text \<open>
  Claim C4, as stated, fails for a directory path that ends in a separator: for
  \<open>X\<close> = \<^verbatim>\<open>a/\<close> and \<open>f\<close> = \<^verbatim>\<open>dem.tif\<close> the input \<^verbatim>\<open>a//dem.tif\<close> gives
  \<^verbatim>\<open>a/Slope_dem.tif\<close> and \<^verbatim>\<open>a/Aspect_dem.tif\<close>, not \<^verbatim>\<open>a//Slope_dem.tif\<close> and
  \<^verbatim>\<open>a//Aspect_dem.tif\<close>: \<^verbatim>\<open>os.path.dirname\<close> strips the separators at the end of the
  directory.
\<close>

theorem derivative_paths_trailing_slash:
  "fst (dem2slope good_env (''a/'' @ ''/'' @ ''dem.tif'') empty_world) = Inr ''a/Slope_dem.tif''
   \<and> fst (dem2aspect good_env (''a/'' @ ''/'' @ ''dem.tif'') empty_world) = Inr ''a/Aspect_dem.tif''
   \<and> ''a/Slope_dem.tif'' \<noteq> ''a/'' @ ''/Slope_'' @ ''dem.tif''
   \<and> ''a/Aspect_dem.tif'' \<noteq> ''a/'' @ ''/Aspect_'' @ ''dem.tif''"
  by (simp add: dem2slope_def dem2aspect_def os_path_basename_def os_path_dirname_def
      os_path_join_def rstrip_sep_def good_env_def Let_def)

text \<open>
  Claim C4, amended. For a file name \<open>f\<close> without a separator and a directory path
  \<open>X\<close> that does not end in a separator (or is made of separators only, as the
  root is), \<^verbatim>\<open>dem2slope\<close> on \<open>X/f\<close> hands \<open>X/Slope_f\<close> to the raster engine and
  returns it, and \<^verbatim>\<open>dem2aspect\<close> does the same with \<open>X/Aspect_f\<close>; an exception of the
  raster engine leaves the function as it is.
\<close>

theorem derivative_paths:
  assumes "CHR ''/'' \<notin> set f"
    and "last X \<noteq> CHR ''/'' \<or> set X \<subseteq> {CHR ''/''}"
  shows "fst (dem2slope env (X @ ''/'' @ f) w) =
           (case DEMProcessing env w (X @ ''/Slope_'' @ f) (X @ ''/'' @ f) ''slope'' of
              Inl e \<Rightarrow> Inl e | Inr raster \<Rightarrow> Inr (X @ ''/Slope_'' @ f))
         \<and> fst (dem2aspect env (X @ ''/'' @ f) w) =
           (case DEMProcessing env w (X @ ''/Aspect_'' @ f) (X @ ''/'' @ f) ''aspect'' of
              Inl e \<Rightarrow> Inl e | Inr raster \<Rightarrow> Inr (X @ ''/Aspect_'' @ f))"
proof -
  have s: "os_path_join (os_path_dirname (X @ ''/'' @ f))
             (''Slope_'' @ os_path_basename (X @ ''/'' @ f)) = X @ ''/Slope_'' @ f"
    using derivative_name [OF assms, of "''Slope_''"] by simp
  have a: "os_path_join (os_path_dirname (X @ ''/'' @ f))
             (''Aspect_'' @ os_path_basename (X @ ''/'' @ f)) = X @ ''/Aspect_'' @ f"
    using derivative_name [OF assms, of "''Aspect_''"] by simp
  show ?thesis
    unfolding dem2slope_def dem2aspect_def Let_def s a
    by (simp split: sum.split)
qed

text \<open>The amended claim on \<^verbatim>\<open>./test_DEM/dem.tif\<close>, with a raster engine that works.\<close>

theorem derivative_paths_witness:
  "CHR ''/'' \<notin> set ''dem.tif'' \<and> last ''./test_DEM'' \<noteq> CHR ''/''
   \<and> fst (dem2slope good_env ''./test_DEM/dem.tif'' empty_world) = Inr ''./test_DEM/Slope_dem.tif''
   \<and> fst (dem2aspect good_env ''./test_DEM/dem.tif'' empty_world) = Inr ''./test_DEM/Aspect_dem.tif''"
proof -
  have f: "CHR ''/'' \<notin> set ''dem.tif''" by simp
  have X: "last ''./test_DEM'' \<noteq> CHR ''/'' \<or> set ''./test_DEM'' \<subseteq> {CHR ''/''}" by simp
  from derivative_paths [OF f X, of good_env empty_world] f X show ?thesis
    by (simp add: good_env_def)
qed

subsection \<open>Files, directories and the request log\<close>

lemma write_response_requests:
  "requests (snd (write_response env name data w)) = requests w"
  by (simp add: write_response_def Let_def split: option.split sum.split prod.split)

lemma write_response_dirs:
  "dirs (snd (write_response env name data w)) = dirs w"
  by (simp add: write_response_def Let_def split: option.split sum.split prod.split)

lemma write_response_file:
  "write_response env name data w = (Inr u, w') \<Longrightarrow> files w' name \<noteq> None"
  by (auto simp: write_response_def Let_def split: option.splits sum.splits prod.splits)

lemma os_makedirs_requests:
  "os_makedirs env name w = Inr w' \<Longrightarrow> requests w' = requests w"
  by (auto simp: os_makedirs_def split: if_splits sum.splits)

lemma os_makedirs_files:
  "os_makedirs env name w = Inr w' \<Longrightarrow> files w' = files w"
  by (auto simp: os_makedirs_def split: if_splits sum.splits)

lemma os_makedirs_dir:
  "os_makedirs env name w = Inr w' \<Longrightarrow> name \<in> set (dirs w')"
  by (auto simp: os_makedirs_def split: if_splits sum.splits)

lemma os_makedirs_again:
  "name \<in> set (dirs w) \<Longrightarrow> os_makedirs env name w = Inr w"
  by (simp add: os_makedirs_def)

lemma download_dirs:
  "dirs (snd (getwcs_dem_download env name b res url c w)) = dirs w"
proof (cases "truediv env res 3600")
  case (Inl e)
  then show ?thesis by (simp add: getwcs_dem_download_def)
next
  case (Inr q)
  then show ?thesis
    by (cases "getCoverage env url
                 \<lparr>req_identifier = ''1'', bbox = b, format = ''GeoTIFF'', crs = c,
                    resx = q, resy = q, Styles = ''tc''\<rparr>")
      (simp_all add: getwcs_dem_download_def write_response_dirs)
qed

lemma download_requests:
  "requests (snd (getwcs_dem_download env name b res url c w)) = requests w
   \<or> (\<exists>q. truediv env res 3600 = Inr q
          \<and> requests (snd (getwcs_dem_download env name b res url c w)) =
              requests w @ [\<lparr>req_identifier = ''1'', bbox = b, format = ''GeoTIFF'', crs = c,
                              resx = q, resy = q, Styles = ''tc''\<rparr>])"
proof (cases "truediv env res 3600")
  case (Inl e)
  then show ?thesis by (simp add: getwcs_dem_download_def)
next
  case (Inr q)
  then show ?thesis
    by (cases "getCoverage env url
                 \<lparr>req_identifier = ''1'', bbox = b, format = ''GeoTIFF'', crs = c,
                    resx = q, resy = q, Styles = ''tc''\<rparr>")
      (simp_all add: getwcs_dem_download_def write_response_requests)
qed

lemma download_ok:
  assumes "getwcs_dem_download env name b res url c w = (Inr u, w')"
  shows "files w' name \<noteq> None
         \<and> (\<exists>q. truediv env res 3600 = Inr q
                \<and> requests w' =
                    requests w @ [\<lparr>req_identifier = ''1'', bbox = b, format = ''GeoTIFF'',
                                    crs = c, resx = q, resy = q, Styles = ''tc''\<rparr>])"
proof (cases "truediv env res 3600")
  case (Inl e)
  with assms show ?thesis by (simp add: getwcs_dem_download_def)
next
  case (Inr q)
  let ?req = "\<lparr>req_identifier = ''1'', bbox = b, format = ''GeoTIFF'', crs = c,
                 resx = q, resy = q, Styles = ''tc''\<rparr>"
  show ?thesis
  proof (cases "getCoverage env url ?req")
    case (Inl e)
    with Inr assms show ?thesis by (simp add: getwcs_dem_download_def)
  next
    case data: (Inr data)
    with Inr assms
    have wr: "write_response env name data (w\<lparr>requests := requests w @ [?req]\<rparr>) = (Inr u, w')"
      by (simp add: getwcs_dem_download_def)
    from write_response_file [OF wr] have "files w' name \<noteq> None" .
    moreover from write_response_requests [of env name data "w\<lparr>requests := requests w @ [?req]\<rparr>"] wr
    have "requests w' = requests w @ [?req]" by simp
    ultimately show ?thesis using Inr by simp
  qed
qed

subsection \<open>The body of the try statement\<close>

lemma getwcs_dem_try_unfold:
  assumes "WebCoverageService env url = Inr wcs" and "wcs_getitem wcs ''1'' = Inr lay"
    and "title lay = Some t"
  shows "getwcs_dem_try env outpath b res url c w =
           (if os_path_exists w (os_path_join outpath (fname_out t (utcnow env)))
            then (Inr (os_path_join outpath (fname_out t (utcnow env))), w)
            else (case getwcs_dem_download env
                         (os_path_join outpath (fname_out t (utcnow env))) b res url c w of
                    (Inl e, w1) \<Rightarrow> (Inl e, w1)
                  | (Inr u, w1) \<Rightarrow>
                      (Inr (os_path_join outpath (fname_out t (utcnow env))), w1)))"
  by (simp add: getwcs_dem_try_def assms Let_def)

lemma getwcs_dem_try_present:
  assumes "WebCoverageService env url = Inr wcs" and "wcs_getitem wcs ''1'' = Inr lay"
    and "title lay = Some t"
    and "os_path_exists w (os_path_join outpath (fname_out t (utcnow env)))"
  shows "getwcs_dem_try env outpath b res url c w =
           (Inr (os_path_join outpath (fname_out t (utcnow env))), w)"
  by (simp add: getwcs_dem_try_unfold [OF assms(1-3)] assms(4))

lemma getwcs_dem_try_snd:
  "snd (getwcs_dem_try env outpath b res url c w) = w
   \<or> (\<exists>name. snd (getwcs_dem_try env outpath b res url c w) =
                 snd (getwcs_dem_download env name b res url c w))"
proof (cases "WebCoverageService env url")
  case (Inl e)
  then show ?thesis by (simp add: getwcs_dem_try_def)
next
  case wcs: (Inr wcs)
  show ?thesis
  proof (cases "wcs_getitem wcs ''1''")
    case (Inl e)
    with wcs show ?thesis by (simp add: getwcs_dem_try_def)
  next
    case lay: (Inr lay)
    show ?thesis
    proof (cases "title lay")
      case None
      with wcs lay show ?thesis by (simp add: getwcs_dem_try_def)
    next
      case (Some t)
      let ?p = "os_path_join outpath (fname_out t (utcnow env))"
      obtain r w1 where d: "getwcs_dem_download env ?p b res url c w = (r, w1)"
        by (cases "getwcs_dem_download env ?p b res url c w")
      have "snd (getwcs_dem_try env outpath b res url c w) = w
            \<or> snd (getwcs_dem_try env outpath b res url c w) = w1"
        by (cases r) (simp_all add: getwcs_dem_try_unfold [OF wcs lay Some] d)
      with d show ?thesis by (metis snd_conv)
    qed
  qed
qed

lemma getwcs_dem_try_dirs:
  "dirs (snd (getwcs_dem_try env outpath b res url c w)) = dirs w"
  using getwcs_dem_try_snd [of env outpath b res url c w]
  by (auto simp: download_dirs)

lemma getwcs_dem_try_requests:
  "requests (snd (getwcs_dem_try env outpath b res url c w)) = requests w
   \<or> (\<exists>q. truediv env res 3600 = Inr q
          \<and> requests (snd (getwcs_dem_try env outpath b res url c w)) =
              requests w @ [\<lparr>req_identifier = ''1'', bbox = b, format = ''GeoTIFF'', crs = c,
                              resx = q, resy = q, Styles = ''tc''\<rparr>])"
proof -
  from getwcs_dem_try_snd [of env outpath b res url c w]
  consider "snd (getwcs_dem_try env outpath b res url c w) = w"
    | name where "snd (getwcs_dem_try env outpath b res url c w) =
                    snd (getwcs_dem_download env name b res url c w)"
    by blast
  then show ?thesis
  proof cases
    case 1
    then show ?thesis by simp
  next
    case 2
    with download_requests [of env name b res url c w] show ?thesis by simp
  qed
qed

lemma getwcs_dem_try_Inr:
  assumes "getwcs_dem_try env outpath b res url c w = (Inr p, w')"
  shows "\<exists>wcs lay t.
           WebCoverageService env url = Inr wcs \<and> wcs_getitem wcs ''1'' = Inr lay
           \<and> title lay = Some t \<and> p = os_path_join outpath (fname_out t (utcnow env))
           \<and> (if os_path_exists w p then w' = w
               else \<exists>u. getwcs_dem_download env p b res url c w = (Inr u, w'))"
proof (cases "WebCoverageService env url")
  case (Inl e)
  with assms show ?thesis by (simp add: getwcs_dem_try_def)
next
  case wcs: (Inr wcs)
  show ?thesis
  proof (cases "wcs_getitem wcs ''1''")
    case (Inl e)
    with wcs assms show ?thesis by (simp add: getwcs_dem_try_def)
  next
    case lay: (Inr lay)
    show ?thesis
    proof (cases "title lay")
      case None
      with wcs lay assms show ?thesis by (simp add: getwcs_dem_try_def)
    next
      case (Some t)
      let ?p = "os_path_join outpath (fname_out t (utcnow env))"
      note u = getwcs_dem_try_unfold [OF wcs lay Some, of outpath b res c w]
      show ?thesis
      proof (cases "os_path_exists w ?p")
        case True
        with assms u have "p = ?p" and "w' = w" by simp_all
        with wcs lay Some True show ?thesis by simp
      next
        case False
        obtain r w1 where d: "getwcs_dem_download env ?p b res url c w = (r, w1)"
          by (cases "getwcs_dem_download env ?p b res url c w")
        from assms u False d obtain v where "r = Inr v" and "p = ?p" and "w' = w1"
          by (cases r) simp_all
        with wcs lay Some False d show ?thesis by simp
      qed
    qed
  qed
qed

text \<open>
  Where an exception can leave the body: the coverage request (after both divisions)
  and the write of the response, then, around them, the connection, the lookup of the
  coverage \<^verbatim>\<open>1\<close> and a title that is \<^verbatim>\<open>None\<close>.
\<close>

lemma getwcs_dem_download_raises:
  "fst (getwcs_dem_download env name b res url c w) = Inl e \<longleftrightarrow>
     truediv env res 3600 = Inl e
     \<or> (\<exists>q. truediv env res 3600 = Inr q
           \<and> (getCoverage env url
                 \<lparr>req_identifier = ''1'', bbox = b, format = ''GeoTIFF'', crs = c,
                    resx = q, resy = q, Styles = ''tc''\<rparr> = Inl e
               \<or> (\<exists>data. getCoverage env url
                            \<lparr>req_identifier = ''1'', bbox = b, format = ''GeoTIFF'', crs = c,
                               resx = q, resy = q, Styles = ''tc''\<rparr> = Inr data
                     \<and> fst (write_response env name data
                              (w\<lparr>requests := requests w @
                                   [\<lparr>req_identifier = ''1'', bbox = b, format = ''GeoTIFF'',
                                      crs = c, resx = q, resy = q, Styles = ''tc''\<rparr>]\<rparr>))
                         = Inl e)))"
proof (cases "truediv env res 3600")
  case (Inl e')
  then show ?thesis by (simp add: getwcs_dem_download_def)
next
  case (Inr q)
  then show ?thesis
    by (cases "getCoverage env url
                 \<lparr>req_identifier = ''1'', bbox = b, format = ''GeoTIFF'', crs = c,
                    resx = q, resy = q, Styles = ''tc''\<rparr>")
      (simp_all add: getwcs_dem_download_def)
qed

lemma getwcs_dem_try_raises:
  "fst (getwcs_dem_try env outpath b res url c w) = Inl e \<longleftrightarrow>
     WebCoverageService env url = Inl e
     \<or> (\<exists>wcs. WebCoverageService env url = Inr wcs
           \<and> (wcs_getitem wcs ''1'' = Inl e
               \<or> (\<exists>lay. wcs_getitem wcs ''1'' = Inr lay
                     \<and> (title lay = None \<and> e = AttributeError
                         \<or> (\<exists>t. title lay = Some t
                               \<and> \<not> os_path_exists w (os_path_join outpath (fname_out t (utcnow env)))
                               \<and> fst (getwcs_dem_download env
                                        (os_path_join outpath (fname_out t (utcnow env)))
                                        b res url c w) = Inl e)))))"
proof (cases "WebCoverageService env url")
  case (Inl e')
  then show ?thesis by (simp add: getwcs_dem_try_def)
next
  case wcs: (Inr wcs)
  show ?thesis
  proof (cases "wcs_getitem wcs ''1''")
    case (Inl e')
    with wcs show ?thesis by (simp add: getwcs_dem_try_def)
  next
    case lay: (Inr lay)
    show ?thesis
    proof (cases "title lay")
      case None
      with wcs lay show ?thesis by (auto simp: getwcs_dem_try_def)
    next
      case (Some t)
      show ?thesis
        by (simp add: getwcs_dem_try_unfold [OF wcs lay Some] wcs lay Some
            split: prod.split sum.split)
    qed
  qed
qed

subsection \<open>Exceptions of the download\<close>

lemma getwcs_dem_raises:
  "os_makedirs env outpath w = Inl e \<Longrightarrow>
   getwcs_dem env outpath b res url c w = (Inl e, w)"
  by (simp add: getwcs_dem_def)

lemma getwcs_dem_unfold:
  assumes "os_makedirs env outpath w = Inr w0"
  shows "getwcs_dem env outpath b res url c w =
           (case getwcs_dem_try env outpath b
                   (case res of None \<Rightarrow> PyInt (resolution_arcsec get_metadict) | Some r \<Rightarrow> r)
                   url c w0 of
              (Inl e, w1) \<Rightarrow> (Inr PyFalse, w1)
            | (Inr outfname, w1) \<Rightarrow> (Inr (Path outfname), w1))"
  by (simp add: getwcs_dem_def assms)

lemma getwcs_dem_snd:
  assumes "os_makedirs env outpath w = Inr w0"
  shows "snd (getwcs_dem env outpath b res url c w) =
           snd (getwcs_dem_try env outpath b
                  (case res of None \<Rightarrow> PyInt (resolution_arcsec get_metadict) | Some r \<Rightarrow> r)
                  url c w0)"
  by (simp add: getwcs_dem_unfold [OF assms] split: prod.split sum.split)

lemma getwcs_dem_Path:
  assumes "getwcs_dem env outpath b res url c w = (Inr (Path p), w')"
  shows "\<exists>w0. os_makedirs env outpath w = Inr w0
           \<and> getwcs_dem_try env outpath b
                 (case res of None \<Rightarrow> PyInt (resolution_arcsec get_metadict) | Some r \<Rightarrow> r)
                 url c w0 = (Inr p, w')"
proof (cases "os_makedirs env outpath w")
  case (Inl e)
  from getwcs_dem_raises [OF this] assms show ?thesis by simp
next
  case (Inr w0)
  from assms show ?thesis
    unfolding getwcs_dem_unfold [OF Inr]
    by (auto simp: Inr split: prod.splits sum.splits)
qed

text \<open>
  Claim C1, as stated, fails for the creation of the directory: \<^verbatim>\<open>os.makedirs\<close> is
  called on line 156, before the \<^verbatim>\<open>try\<close> statement that starts on line 158. When the
  directory cannot be created, \<^verbatim>\<open>getwcs_dem\<close> raises \<^verbatim>\<open>OSError\<close> and does not return
  \<^verbatim>\<open>False\<close>.
\<close>

theorem getwcs_dem_makedirs_raises:
  "fst (getwcs_dem readonly_env ''out'' [114, -44, 1539 / 10, -11] (Some (PyInt 100))
          ga_url ''EPSG:4326'' empty_world) = Inl OSError"
  by code_simp

text \<open>
  Claim C1, amended. Once the output directory is there, \<^verbatim>\<open>getwcs_dem\<close> returns and
  never raises, and whenever an exception leaves the body of the \<^verbatim>\<open>try\<close> statement it
  returns \<^verbatim>\<open>False\<close>: so it does when connecting to the service raises, when the lookup
  of the coverage \<^verbatim>\<open>1\<close> raises, and when the coverage request or the write of the file
  raises (\<open>getwcs_dem_download_raises\<close> lists the steps of those two). An exception of
  the directory creation leaves \<^verbatim>\<open>getwcs_dem\<close> as it is (\<open>getwcs_dem_raises\<close>).
\<close>

theorem getwcs_dem_catches:
  assumes "os_makedirs env outpath w = Inr w0"
  shows "(\<exists>r. fst (getwcs_dem env outpath b res url c w) = Inr r)
         \<and> (\<forall>e. fst (getwcs_dem_try env outpath b
                       (case res of None \<Rightarrow> PyInt (resolution_arcsec get_metadict) | Some r \<Rightarrow> r)
                       url c w0) = Inl e
                \<longrightarrow> fst (getwcs_dem env outpath b res url c w) = Inr PyFalse)
         \<and> (\<forall>e. WebCoverageService env url = Inl e
                \<longrightarrow> fst (getwcs_dem env outpath b res url c w) = Inr PyFalse)
         \<and> (\<forall>wcs e. WebCoverageService env url = Inr wcs \<and> wcs_getitem wcs ''1'' = Inl e
                \<longrightarrow> fst (getwcs_dem env outpath b res url c w) = Inr PyFalse)
         \<and> (\<forall>wcs lay t e.
                WebCoverageService env url = Inr wcs \<and> wcs_getitem wcs ''1'' = Inr lay
                \<and> title lay = Some t
                \<and> \<not> os_path_exists w0 (os_path_join outpath (fname_out t (utcnow env)))
                \<and> fst (getwcs_dem_download env
                         (os_path_join outpath (fname_out t (utcnow env))) b
                         (case res of None \<Rightarrow> PyInt (resolution_arcsec get_metadict) | Some r \<Rightarrow> r)
                         url c w0) = Inl e
                \<longrightarrow> fst (getwcs_dem env outpath b res url c w) = Inr PyFalse)"
proof -
  let ?res = "case res of None \<Rightarrow> PyInt (resolution_arcsec get_metadict) | Some r \<Rightarrow> r"
  let ?R = "fst (getwcs_dem env outpath b res url c w)"
  let ?T = "fst (getwcs_dem_try env outpath b ?res url c w0)"
  have returns: "\<exists>r. ?R = Inr r"
    by (simp add: getwcs_dem_unfold [OF assms] split: prod.split sum.split)
  have caught: "?R = Inr PyFalse" if "?T = Inl e" for e
    using that by (auto simp: getwcs_dem_unfold [OF assms] split: prod.split sum.split)
  have connect: "?R = Inr PyFalse" if "WebCoverageService env url = Inl e" for e
  proof -
    from that have "?T = Inl e" by (simp add: getwcs_dem_try_raises)
    then show ?thesis by (rule caught)
  qed
  have lookup: "?R = Inr PyFalse"
    if "WebCoverageService env url = Inr wcs \<and> wcs_getitem wcs ''1'' = Inl e" for wcs e
  proof -
    from that have "?T = Inl e" by (simp add: getwcs_dem_try_raises)
    then show ?thesis by (rule caught)
  qed
  have download: "?R = Inr PyFalse"
    if "WebCoverageService env url = Inr wcs \<and> wcs_getitem wcs ''1'' = Inr lay
        \<and> title lay = Some t
        \<and> \<not> os_path_exists w0 (os_path_join outpath (fname_out t (utcnow env)))
        \<and> fst (getwcs_dem_download env
                 (os_path_join outpath (fname_out t (utcnow env))) b ?res url c w0) = Inl e"
    for wcs lay t e
  proof -
    from that have "?T = Inl e" by (simp add: getwcs_dem_try_raises)
    then show ?thesis by (rule caught)
  qed
  from returns caught connect lookup download show ?thesis by blast
qed

text \<open>
  The amended claim on a service whose coverage request fails: the directory is
  created and the call returns \<^verbatim>\<open>False\<close>.
\<close>

theorem getwcs_dem_catches_witness:
  "os_makedirs failing_env ''out'' empty_world = Inr (empty_world\<lparr>dirs := [''out'']\<rparr>)
   \<and> fst (getwcs_dem failing_env ''out'' [114, -44, 1539 / 10, -11] (Some (PyInt 100))
            ga_url ''EPSG:4326'' empty_world) = Inr PyFalse"
proof -
  have m: "os_makedirs failing_env ''out'' empty_world = Inr (empty_world\<lparr>dirs := [''out'']\<rparr>)"
    by (simp add: os_makedirs_def failing_env_def good_env_def empty_world_def)
  have t: "fst (getwcs_dem_try failing_env ''out'' [114, -44, 1539 / 10, -11]
                  (case Some (PyInt 100) of
                     None \<Rightarrow> PyInt (resolution_arcsec get_metadict) | Some r \<Rightarrow> r)
                  ga_url ''EPSG:4326'' (empty_world\<lparr>dirs := [''out'']\<rparr>)) = Inl ServiceError"
    by code_simp
  from getwcs_dem_catches [OF m, of "[114, -44, 1539 / 10, -11]" "Some (PyInt 100)"
      ga_url "''EPSG:4326''"] t m
  show ?thesis by blast
qed

subsection \<open>The coverage request\<close>

text \<open>
  Claim C6. A call with the resolution \<open>r\<close> that sends a coverage request sends
  exactly one, for the coverage \<^verbatim>\<open>1\<close>, with the bounding box and the CRS of the
  caller, the format GeoTIFF and \<^verbatim>\<open>resx\<close> and \<^verbatim>\<open>resy\<close> both the value of
  \<^verbatim>\<open>r / 3600\<close>.
\<close>

theorem getwcs_dem_request:
  assumes "requests (snd (getwcs_dem env outpath b (Some r) url c w)) \<noteq> requests w"
  shows "\<exists>q. truediv env r 3600 = Inr q
           \<and> requests (snd (getwcs_dem env outpath b (Some r) url c w)) =
               requests w @ [\<lparr>req_identifier = ''1'', bbox = b, format = ''GeoTIFF'', crs = c,
                               resx = q, resy = q, Styles = ''tc''\<rparr>]"
proof (cases "os_makedirs env outpath w")
  case (Inl e)
  from getwcs_dem_raises [OF this] assms show ?thesis by simp
next
  case (Inr w0)
  from getwcs_dem_snd [OF Inr, of b "Some r" url c]
  have s: "snd (getwcs_dem env outpath b (Some r) url c w) =
             snd (getwcs_dem_try env outpath b r url c w0)"
    by simp
  from os_makedirs_requests [OF Inr] have r: "requests w0 = requests w" .
  from getwcs_dem_try_requests [of env outpath b r url c w0] assms
  show ?thesis unfolding s r by blast
qed

text \<open>
  The claim on the bounding box and the resolution of 100 arc-seconds of the test
  script: one request, with 100 / 3600 = 1 / 36 on both axes.
\<close>

theorem getwcs_dem_request_witness:
  "requests (snd (getwcs_dem good_env ''./test_DEM/'' [114, -44, 1539 / 10, -11]
                    (Some (PyInt 100)) ga_url ''EPSG:4326'' empty_world))
     \<noteq> requests empty_world
   \<and> requests (snd (getwcs_dem good_env ''./test_DEM/'' [114, -44, 1539 / 10, -11]
                       (Some (PyInt 100)) ga_url ''EPSG:4326'' empty_world))
       = [\<lparr>req_identifier = ''1'', bbox = [114, -44, 1539 / 10, -11], format = ''GeoTIFF'',
            crs = ''EPSG:4326'', resx = 1 / 36, resy = 1 / 36, Styles = ''tc''\<rparr>]"
proof -
  have h: "requests (snd (getwcs_dem good_env ''./test_DEM/'' [114, -44, 1539 / 10, -11]
                            (Some (PyInt 100)) ga_url ''EPSG:4326'' empty_world))
             \<noteq> requests empty_world"
    by code_simp
  have q: "truediv good_env (PyInt 100) 3600 = Inr (1 / 36)"
    by (simp add: good_env_def py_truediv_def)
  from getwcs_dem_request [OF h] obtain x where
    x: "truediv good_env (PyInt 100) 3600 = Inr x"
    and rs: "requests (snd (getwcs_dem good_env ''./test_DEM/'' [114, -44, 1539 / 10, -11]
                              (Some (PyInt 100)) ga_url ''EPSG:4326'' empty_world))
               = requests empty_world @
                   [\<lparr>req_identifier = ''1'', bbox = [114, -44, 1539 / 10, -11],
                      format = ''GeoTIFF'', crs = ''EPSG:4326'', resx = x, resy = x,
                      Styles = ''tc''\<rparr>]"
    by blast
  from x q have "x = 1 / 36" by simp
  with rs h show ?thesis by (simp add: empty_world_def)
qed

subsection \<open>Calling twice\<close>

text \<open>
  A call that returned a file name leaves that file in place, and the same call again,
  with the service and the day of the first one, returns the same name and changes
  nothing: no request, no write.
\<close>

lemma getwcs_dem_again:
  assumes "getwcs_dem env outpath b res url c w = (Inr (Path p), w')"
  shows "os_path_exists w' p
         \<and> getwcs_dem env outpath b res url c w' = (Inr (Path p), w')"
proof -
  let ?res = "case res of None \<Rightarrow> PyInt (resolution_arcsec get_metadict) | Some r \<Rightarrow> r"
  from getwcs_dem_Path [OF assms] obtain w0 where
    m: "os_makedirs env outpath w = Inr w0"
    and t: "getwcs_dem_try env outpath b ?res url c w0 = (Inr p, w')"
    by blast
  from getwcs_dem_try_Inr [OF t] obtain wcs lay ti where
    wcs: "WebCoverageService env url = Inr wcs" and lay: "wcs_getitem wcs ''1'' = Inr lay"
    and ti: "title lay = Some ti" and p: "p = os_path_join outpath (fname_out ti (utcnow env))"
    and br: "if os_path_exists w0 p then w' = w0
             else \<exists>u. getwcs_dem_download env p b ?res url c w0 = (Inr u, w')"
    by blast
  have ex: "os_path_exists w' p"
  proof (cases "os_path_exists w0 p")
    case True
    with br show ?thesis by simp
  next
    case False
    with br obtain u where "getwcs_dem_download env p b ?res url c w0 = (Inr u, w')"
      by auto
    from download_ok [OF this] show ?thesis by (simp add: os_path_exists_def)
  qed
  from getwcs_dem_try_dirs [of env outpath b ?res url c w0] t
  have "dirs w' = dirs w0" by simp
  with os_makedirs_dir [OF m] have "outpath \<in> set (dirs w')" by simp
  then have m': "os_makedirs env outpath w' = Inr w'" by (rule os_makedirs_again)
  from ex p have "os_path_exists w' (os_path_join outpath (fname_out ti (utcnow env)))"
    by simp
  from getwcs_dem_try_present [OF wcs lay ti this, of b ?res c] p
  have "getwcs_dem_try env outpath b ?res url c w' = (Inr p, w')" by simp
  then have "getwcs_dem env outpath b res url c w' = (Inr (Path p), w')"
    by (simp add: getwcs_dem_unfold [OF m'])
  with ex show ?thesis by simp
qed

text \<open>
  Claim C2. Let a first call return the path \<open>p\<close>, where before it no file \<open>p\<close>
  existed (and \<open>p\<close> is not a directory). Then the first call has sent exactly one
  coverage request and the file is there; the second call with the same parameters, on
  the same day and against the same service, returns \<open>p\<close> again and leaves the world as
  it found it, so it sends no coverage request and writes nothing. (Each call fetches
  the capabilities document when it connects; the transfer counted is the coverage
  request.)
\<close>

theorem getwcs_dem_idempotent:
  assumes first: "getwcs_dem env outpath b res url c w = (Inr (Path p), w')"
    and absent: "files w p = None"
    and nodir: "p \<notin> set (dirs w')"
  shows "(\<exists>req. requests w' = requests w @ [req])
         \<and> files w' p \<noteq> None
         \<and> getwcs_dem env outpath b res url c w' = (Inr (Path p), w')"
proof -
  let ?res = "case res of None \<Rightarrow> PyInt (resolution_arcsec get_metadict) | Some r \<Rightarrow> r"
  from getwcs_dem_Path [OF first] obtain w0 where
    m: "os_makedirs env outpath w = Inr w0"
    and t: "getwcs_dem_try env outpath b ?res url c w0 = (Inr p, w')"
    by blast
  from getwcs_dem_try_dirs [of env outpath b ?res url c w0] t
  have "dirs w' = dirs w0" by simp
  with absent nodir os_makedirs_files [OF m] have no: "\<not> os_path_exists w0 p"
    by (simp add: os_path_exists_def)
  from getwcs_dem_try_Inr [OF t] no obtain u where
    "getwcs_dem_download env p b ?res url c w0 = (Inr u, w')"
    by auto
  from download_ok [OF this] os_makedirs_requests [OF m]
  have "(\<exists>req. requests w' = requests w @ [req]) \<and> files w' p \<noteq> None"
    by auto
  with getwcs_dem_again [OF first] show ?thesis by simp
qed

text \<open>
  The claim on the run of the test script: the first call downloads to
  \<^verbatim>\<open>./test_DEM/DEM_1_Second_Grid_2022-03-07.tif\<close> with one request, the second returns
  the same path from the world the first one left and leaves it unchanged.
\<close>

theorem getwcs_dem_idempotent_witness:
  "getwcs_dem good_env ''./test_DEM/'' [114, -44, 1539 / 10, -11] (Some (PyInt 100))
       ga_url ''EPSG:4326'' empty_world
     = (Inr (Path ''./test_DEM/DEM_1_Second_Grid_2022-03-07.tif''),
        snd (getwcs_dem good_env ''./test_DEM/'' [114, -44, 1539 / 10, -11] (Some (PyInt 100))
               ga_url ''EPSG:4326'' empty_world))
   \<and> files empty_world ''./test_DEM/DEM_1_Second_Grid_2022-03-07.tif'' = None
   \<and> ''./test_DEM/DEM_1_Second_Grid_2022-03-07.tif''
       \<notin> set (dirs (snd (getwcs_dem good_env ''./test_DEM/'' [114, -44, 1539 / 10, -11]
                            (Some (PyInt 100)) ga_url ''EPSG:4326'' empty_world)))
   \<and> length (requests (snd (getwcs_dem good_env ''./test_DEM/'' [114, -44, 1539 / 10, -11]
                               (Some (PyInt 100)) ga_url ''EPSG:4326'' empty_world))) = 1
   \<and> getwcs_dem good_env ''./test_DEM/'' [114, -44, 1539 / 10, -11] (Some (PyInt 100))
         ga_url ''EPSG:4326''
         (snd (getwcs_dem good_env ''./test_DEM/'' [114, -44, 1539 / 10, -11] (Some (PyInt 100))
                 ga_url ''EPSG:4326'' empty_world))
       = (Inr (Path ''./test_DEM/DEM_1_Second_Grid_2022-03-07.tif''),
          snd (getwcs_dem good_env ''./test_DEM/'' [114, -44, 1539 / 10, -11] (Some (PyInt 100))
                 ga_url ''EPSG:4326'' empty_world))"
proof -
  let ?run = "getwcs_dem good_env ''./test_DEM/'' [114, -44, 1539 / 10, -11] (Some (PyInt 100))
                ga_url ''EPSG:4326'' empty_world"
  let ?p = "''./test_DEM/DEM_1_Second_Grid_2022-03-07.tif''"
  have "fst ?run = Inr (Path ?p)"
    by code_simp
  then have first: "?run = (Inr (Path ?p), snd ?run)"
    by (simp add: prod_eq_iff)
  have absent: "files empty_world ?p = None"
    by (simp add: empty_world_def)
  have nodir: "?p \<notin> set (dirs (snd ?run))"
    by code_simp
  have "requests empty_world = []"
    by (simp add: empty_world_def)
  with getwcs_dem_idempotent [OF first absent nodir] first absent nodir
  show ?thesis by auto
qed

subsection \<open>Where the file goes\<close>

text \<open>
  The path returned is \<^verbatim>\<open>os.path.join(outpath, fname_out)\<close>, it ends in \<^verbatim>\<open>.tif\<close>, and
  it starts with \<^verbatim>\<open>outpath\<close> when the title of the coverage does not start with a
  separator.
\<close>

lemma os_path_join_suffix: "suffix b (os_path_join a b)"
  by (simp add: os_path_join_def suffix_def)

lemma os_path_join_prefix:
  "b = [] \<or> hd b \<noteq> CHR ''/'' \<Longrightarrow> prefix a (os_path_join a b)"
  by (auto simp: os_path_join_def)

lemma fname_out_tif: "suffix ''.tif'' (fname_out t d)"
  by (simp add: fname_out_def suffix_def)

lemma fname_out_relative:
  "t = [] \<or> hd t \<noteq> CHR ''/'' \<Longrightarrow> hd (fname_out t d) \<noteq> CHR ''/''"
  by (cases t) (simp_all add: fname_out_def str_replace_char)

lemma getwcs_dem_path:
  assumes "getwcs_dem env outpath b res url c w = (Inr (Path p), w')"
  shows "\<exists>wcs lay t.
           WebCoverageService env url = Inr wcs \<and> wcs_getitem wcs ''1'' = Inr lay
           \<and> title lay = Some t
           \<and> p = os_path_join outpath (fname_out t (utcnow env))
           \<and> suffix ''.tif'' p
           \<and> (t = [] \<or> hd t \<noteq> CHR ''/'' \<longrightarrow> prefix outpath p)"
proof -
  from getwcs_dem_Path [OF assms] obtain w0 where
    "getwcs_dem_try env outpath b
       (case res of None \<Rightarrow> PyInt (resolution_arcsec get_metadict) | Some r \<Rightarrow> r)
       url c w0 = (Inr p, w')"
    by blast
  from getwcs_dem_try_Inr [OF this] obtain wcs lay t where
    wcs: "WebCoverageService env url = Inr wcs" and lay: "wcs_getitem wcs ''1'' = Inr lay"
    and t: "title lay = Some t" and p: "p = os_path_join outpath (fname_out t (utcnow env))"
    by blast
  from p have "suffix ''.tif'' p"
    using suffix_order.trans [OF fname_out_tif os_path_join_suffix] by simp
  moreover have "prefix outpath p" if "t = [] \<or> hd t \<noteq> CHR ''/''"
    unfolding p using fname_out_relative [OF that] by (intro os_path_join_prefix) simp
  ultimately show ?thesis using wcs lay t p by blast
qed

text \<open>
  Claim C10 does not hold of the code when the service gives its coverage a title that
  starts with a separator: for the title \<^verbatim>\<open>/tmp/x\<close> and the output directory \<^verbatim>\<open>out\<close>,
  \<^verbatim>\<open>os.path.join\<close> drops the directory, the response is written to
  \<^verbatim>\<open>/tmp/x_2022-03-07.tif\<close> and that path, which is not inside \<^verbatim>\<open>out\<close>, is returned.
\<close>

theorem getwcs_dem_leaves_outpath:
  "fst (getwcs_dem rooted_env ''out'' [114, -44, 1539 / 10, -11] (Some (PyInt 100))
          ga_url ''EPSG:4326'' empty_world) = Inr (Path ''/tmp/x_2022-03-07.tif'')
   \<and> \<not> prefix ''out'' ''/tmp/x_2022-03-07.tif''
   \<and> files (snd (getwcs_dem rooted_env ''out'' [114, -44, 1539 / 10, -11] (Some (PyInt 100))
                   ga_url ''EPSG:4326'' empty_world)) ''/tmp/x_2022-03-07.tif'' = Some ''II*''"
  by code_simp

end
